theory Spec2Isabelle
  imports Main "HOL-Library.Char_ord" "HOL-Library.List_Lexorder"
begin

section \<open>Data model\<close>

text \<open>
  The panel (\<^verbatim>\<open>src/src/index.tsx\<close>, component \<^verbatim>\<open>ArgdownPanel\<close>) derives two things from
  parsed Argdown data: the list of available speakers (\<^verbatim>\<open>extractSpeakers\<close>) and the node
  mutations of a speaker filter (\<^verbatim>\<open>buildSpeakerMutations\<close>).

  JavaScript strings are modelled as \<^typ>\<open>string\<close>; their order is the lexicographic order
  on code units, which is what the default \<^verbatim>\<open>Array.prototype.sort\<close> uses on strings.
\<close>

text \<open>\<^verbatim>\<open>interface TaggedItem { tags?: string[] }\<close>\<close>

record TaggedItem =
  tags :: "string list option"

text \<open>
  Modelled from the spec: the types \<^verbatim>\<open>ArgdownMapData\<close>, \<^verbatim>\<open>FilterOptions\<close> and
  \<^verbatim>\<open>NodeMutation\<close> are imported from the renderer package and are not declared in this
  repository. The records below have exactly the fields the two functions read or write.

  An entry of the top-level tag sequence is a string, or an object with optional
  \<^verbatim>\<open>tag\<close> and \<^verbatim>\<open>title\<close> fields, or nullish (the code reads it through \<^verbatim>\<open>tag?.tag\<close>).
\<close>

datatype TagEntry =
    TagString string
  | TagRecord "string option" "string option"
  | TagNullish

text \<open>
  \<^verbatim>\<open>response.tags\<close> is an array of entries or an object whose keys are tag names; for the
  object only \<^verbatim>\<open>Object.keys\<close> is read, so it is modelled by its key list in that order.
\<close>

datatype TagsField =
    TagsArray "TagEntry list"
  | TagsObject "string list"

text \<open>A node of the rendered graph: \<^verbatim>\<open>node.id\<close> and \<^verbatim>\<open>node.tags\<close>.\<close>

record Node =
  node_id :: string
  node_tags :: "string list option"

text \<open>\<^verbatim>\<open>response.map\<close>: only \<^verbatim>\<open>nodes\<close> is read.\<close>

record MapView =
  nodes :: "Node list option"

text \<open>
  \<^verbatim>\<open>data.response\<close>. The objects \<^verbatim>\<open>arguments\<close> and \<^verbatim>\<open>statements\<close> are read only through
  \<^verbatim>\<open>Object.entries\<close> and \<^verbatim>\<open>Object.values\<close>, so each is modelled by its list of entries in
  enumeration order. The field \<^verbatim>\<open>map\<close> is named \<open>map_view\<close> here.
\<close>

record Response =
  response_tags :: "TagsField option"
  arguments :: "(string \<times> TaggedItem) list option"
  statements :: "(string \<times> TaggedItem) list option"
  map_view :: "MapView option"

record ArgdownMapData =
  response :: "Response option"

datatype ArgumentType = Support | Attack | Undercut

text \<open>\<^verbatim>\<open>FilterOptions\<close>; the source field \<^verbatim>\<open>tags\<close> is named \<open>filter_tags\<close> here.\<close>

record FilterOptions =
  speakers :: "string list option"
  argumentTypes :: "ArgumentType list option"
  filter_tags :: "string list option"
  showClaims :: "bool option"
  showArguments :: "bool option"

datatype Effect = Emphasize | Dim

record NodeMutation =
  nodeIds :: "string list"
  effect :: Effect
  reason :: string
  priority :: int

section \<open>String and array primitives\<close>

text \<open>\<^verbatim>\<open>s.startsWith(p)\<close>\<close>

definition startsWith :: "string \<Rightarrow> string \<Rightarrow> bool" where
  "startsWith s p = (take (length p) s = p)"

text \<open>\<^verbatim>\<open>s.replace(pat, rep)\<close> with a string pattern: the first occurrence is replaced.\<close>

fun replace :: "string \<Rightarrow> string \<Rightarrow> string \<Rightarrow> string" where
  "replace [] pat rep = (if pat = [] then rep else [])"
| "replace (c # cs) pat rep =
     (if startsWith (c # cs) pat then rep @ drop (length pat) (c # cs)
      else c # replace cs pat rep)"

text \<open>\<^verbatim>\<open>xs.includes(x)\<close>, on arrays of strings and (for a one-character \<^verbatim>\<open>x\<close>) on strings.\<close>

definition includesJS :: "'a list \<Rightarrow> 'a \<Rightarrow> bool" where
  "includesJS xs x = (x \<in> set xs)"

text \<open>\<^verbatim>\<open>xs.some(p)\<close>\<close>

definition some :: "'a list \<Rightarrow> ('a \<Rightarrow> bool) \<Rightarrow> bool" where
  "some xs p = list_ex p xs"

text \<open>\<^verbatim>\<open>xs.join(sep)\<close>\<close>

fun join :: "string list \<Rightarrow> string \<Rightarrow> string" where
  "join [] sep = []"
| "join [x] sep = x"
| "join (x # y # ys) sep = x @ sep @ join (y # ys) sep"

text \<open>\<^verbatim>\<open>a || b\<close> for an optional string \<^verbatim>\<open>a\<close>: absent and empty are both falsy.\<close>

definition strOr :: "string option \<Rightarrow> string \<Rightarrow> string" where
  "strOr a b = (case a of None \<Rightarrow> b | Some s \<Rightarrow> if s = [] then b else s)"

text \<open>\<^verbatim>\<open>item.tags || []\<close>: an array is always truthy.\<close>

definition tagsOrEmpty :: "string list option \<Rightarrow> string list" where
  "tagsOrEmpty t = (case t of None \<Rightarrow> [] | Some ts \<Rightarrow> ts)"

text \<open>
  \<^verbatim>\<open>Set.prototype.add\<close> on a \<^verbatim>\<open>Set<string>\<close>, kept as the list of its elements in insertion
  order (the order \<^verbatim>\<open>Array.from\<close> reads them in).
\<close>

definition add :: "string \<Rightarrow> string list \<Rightarrow> string list" where
  "add x s = (if x \<in> set s then s else s @ [x])"

section \<open>extractSpeakers\<close>

text \<open>\<^verbatim>\<open>typeof tag === 'string' ? tag : tag?.tag || tag?.title || ''\<close>\<close>

definition tagStr :: "TagEntry \<Rightarrow> string" where
  "tagStr t = (case t of
      TagString s \<Rightarrow> s
    | TagRecord tg ti \<Rightarrow> strOr tg (strOr ti [])
    | TagNullish \<Rightarrow> [])"

text \<open>Body of the loop over the top-level tag array.\<close>

definition scanTopTag :: "TagEntry \<Rightarrow> string list \<Rightarrow> string list" where
  "scanTopTag t s =
     (if startsWith (tagStr t) ''speaker-'' then add (replace (tagStr t) ''speaker-'' []) s
      else s)"

text \<open>Body of the loop over the keys of a top-level tag object.\<close>

definition scanTagKey :: "string \<Rightarrow> string list \<Rightarrow> string list" where
  "scanTagKey tagKey s =
     (if startsWith tagKey ''speaker-'' then add (replace tagKey ''speaker-'' []) s else s)"

text \<open>Body of the loop over the tags of one argument or statement.\<close>

definition scanItemTag :: "string \<Rightarrow> string list \<Rightarrow> string list" where
  "scanItemTag tag s =
     (if startsWith tag ''speaker-'' then add (replace tag ''speaker-'' []) s
      else if \<not> includesJS tag (CHR ''-'') then add tag s
      else s)"

text \<open>\<^verbatim>\<open>if (item.tags) { for (const tag of item.tags) ... }\<close>\<close>

definition scanItem :: "TaggedItem \<Rightarrow> string list \<Rightarrow> string list" where
  "scanItem item s = (case tags item of None \<Rightarrow> s | Some ts \<Rightarrow> fold scanItemTag ts s)"

text \<open>\<^verbatim>\<open>for (const item of Object.values(obj))\<close>, when \<^verbatim>\<open>obj\<close> is present.\<close>

definition scanItems :: "(string \<times> TaggedItem) list option \<Rightarrow> string list \<Rightarrow> string list" where
  "scanItems obj s = (case obj of None \<Rightarrow> s | Some es \<Rightarrow> fold scanItem (map snd es) s)"

definition scanTopTags :: "TagsField option \<Rightarrow> string list \<Rightarrow> string list" where
  "scanTopTags t s = (case t of
      None \<Rightarrow> s
    | Some (TagsArray ts) \<Rightarrow> fold scanTopTag ts s
    | Some (TagsObject ks) \<Rightarrow> fold scanTagKey ks s)"

definition extractSpeakers :: "ArgdownMapData \<Rightarrow> string list" where
  "extractSpeakers data = (case response data of
      None \<Rightarrow> []
    | Some r \<Rightarrow>
        sort (scanItems (statements r) (scanItems (arguments r) (scanTopTags (response_tags r) []))))"

section \<open>buildSpeakerMutations\<close>

text \<open>
  \<^verbatim>\<open>const speakerTags = filters.speakers.map(s => `speaker-${s}`);\<close>
  \<^verbatim>\<open>const allFilterTags = [...speakerTags, ...filters.speakers];\<close>
\<close>

definition speakerTags :: "string list \<Rightarrow> string list" where
  "speakerTags spk = map (\<lambda>s. ''speaker-'' @ s) spk"

definition allFilterTags :: "string list \<Rightarrow> string list" where
  "allFilterTags spk = speakerTags spk @ spk"

text \<open>\<^verbatim>\<open>allFilterTags.some(tag => itemTags.includes(tag))\<close>\<close>

definition matchesFilter :: "string list \<Rightarrow> string list \<Rightarrow> bool" where
  "matchesFilter fts itemTags = some fts (\<lambda>tag. includesJS itemTags tag)"

text \<open>
  The two accumulators \<^verbatim>\<open>matchingNodeIds\<close> and \<^verbatim>\<open>nonMatchingNodeIds\<close> are threaded through
  the three loops as a pair; \<^verbatim>\<open>push\<close> appends at the end.
\<close>

type_synonym NodeLists = "string list \<times> string list"

text \<open>Body of the loop over \<^verbatim>\<open>Object.entries(response.arguments)\<close>.\<close>

definition checkArgument :: "string list \<Rightarrow> string \<times> TaggedItem \<Rightarrow> NodeLists \<Rightarrow> NodeLists" where
  "checkArgument fts entry st = (case entry of (ident, arg) \<Rightarrow> case st of (matching, nonMatching) \<Rightarrow>
     (let argTags = tagsOrEmpty (tags arg) in
      if matchesFilter fts argTags then (matching @ [ident], nonMatching)
      else (matching, nonMatching @ [ident])))"

text \<open>Body of the loop over \<^verbatim>\<open>Object.entries(response.statements)\<close>.\<close>

definition checkStatement :: "string list \<Rightarrow> string \<times> TaggedItem \<Rightarrow> NodeLists \<Rightarrow> NodeLists" where
  "checkStatement fts entry st = (case entry of (ident, stmt) \<Rightarrow> case st of (matching, nonMatching) \<Rightarrow>
     (let stmtTags = tagsOrEmpty (tags stmt);
          hasSpeakerTag = some stmtTags (\<lambda>t. startsWith t ''speaker-'' \<or> \<not> includesJS t (CHR ''-''))
      in
      if \<not> hasSpeakerTag \<or> matchesFilter fts stmtTags then (matching @ [ident], nonMatching)
      else (matching, nonMatching @ [ident])))"

text \<open>Body of the loop over \<^verbatim>\<open>response.map.nodes\<close>.\<close>

definition checkNode :: "string list \<Rightarrow> Node \<Rightarrow> NodeLists \<Rightarrow> NodeLists" where
  "checkNode fts node st = (case st of (matching, nonMatching) \<Rightarrow>
     (let nodeId = node_id node;
          nodeTags = tagsOrEmpty (node_tags node)
      in
      if \<not> includesJS matching nodeId \<and> \<not> includesJS nonMatching nodeId then
        (if matchesFilter fts nodeTags then (matching @ [nodeId], nonMatching)
         else (matching, nonMatching))
      else (matching, nonMatching)))"

definition checkArguments :: "string list \<Rightarrow> Response \<Rightarrow> NodeLists \<Rightarrow> NodeLists" where
  "checkArguments fts r st = (case arguments r of
      None \<Rightarrow> st
    | Some es \<Rightarrow> fold (checkArgument fts) es st)"

definition checkStatements :: "string list \<Rightarrow> Response \<Rightarrow> NodeLists \<Rightarrow> NodeLists" where
  "checkStatements fts r st = (case statements r of
      None \<Rightarrow> st
    | Some es \<Rightarrow> fold (checkStatement fts) es st)"

text \<open>\<^verbatim>\<open>if (response.map?.nodes) { for (const node of response.map.nodes) ... }\<close>\<close>

definition checkNodes :: "string list \<Rightarrow> Response \<Rightarrow> NodeLists \<Rightarrow> NodeLists" where
  "checkNodes fts r st = (case map_view r of
      None \<Rightarrow> st
    | Some mv \<Rightarrow> (case nodes mv of
        None \<Rightarrow> st
      | Some ns \<Rightarrow> fold (checkNode fts) ns st))"

text \<open>
  The values of \<^verbatim>\<open>matchingNodeIds\<close> and \<^verbatim>\<open>nonMatchingNodeIds\<close> after the three loops, for a
  present response and the requested speakers.
\<close>

definition classify :: "Response \<Rightarrow> string list \<Rightarrow> NodeLists" where
  "classify r spk =
     (let fts = allFilterTags spk in
      checkNodes fts r (checkStatements fts r (checkArguments fts r ([], []))))"

definition emphasizeMutation :: "string list \<Rightarrow> string list \<Rightarrow> NodeMutation" where
  "emphasizeMutation spk matching =
     \<lparr> nodeIds = matching, effect = Emphasize,
       reason = ''Speaker: '' @ join spk '', '', priority = 10 \<rparr>"

definition dimMutation :: "string list \<Rightarrow> NodeMutation" where
  "dimMutation nonMatching =
     \<lparr> nodeIds = nonMatching, effect = Dim, reason = ''Not matching filter'', priority = 0 \<rparr>"

text \<open>The tail of the function: the two conditional \<^verbatim>\<open>mutations.push\<close> calls.\<close>

definition emitMutations :: "string list \<Rightarrow> NodeLists \<Rightarrow> NodeMutation list" where
  "emitMutations spk st = (case st of (matching, nonMatching) \<Rightarrow>
     (if length matching > 0 then [emphasizeMutation spk matching] else []) @
     (if length nonMatching > 0 then [dimMutation nonMatching] else []))"

text \<open>
  \<^verbatim>\<open>if (!data.response || !filters.speakers?.length) return [];\<close>: the response is absent,
  or the speaker list is absent or has length 0.
\<close>

definition buildSpeakerMutations :: "ArgdownMapData \<Rightarrow> FilterOptions \<Rightarrow> NodeMutation list" where
  "buildSpeakerMutations data filters = (case response data of
      None \<Rightarrow> []
    | Some r \<Rightarrow> (case speakers filters of
        None \<Rightarrow> []
      | Some spk \<Rightarrow>
          if length spk = 0 then [] else emitMutations spk (classify r spk)))"

section \<open>Views of the input and of the result\<close>

text \<open>The identifiers carried by the mutations of a given effect in a result.\<close>

definition idsOf :: "Effect \<Rightarrow> NodeMutation list \<Rightarrow> string set" where
  "idsOf e ms = \<Union> (set (map (\<lambda>m. set (nodeIds m)) (filter (\<lambda>m. effect m = e) ms)))"

text \<open>
  The entries of the argument and statement objects and the node list of the rendered
  graph, empty when the field is absent (the loops are then skipped).
\<close>

definition argumentEntries :: "Response \<Rightarrow> (string \<times> TaggedItem) list" where
  "argumentEntries r = (case arguments r of None \<Rightarrow> [] | Some es \<Rightarrow> es)"

definition statementEntries :: "Response \<Rightarrow> (string \<times> TaggedItem) list" where
  "statementEntries r = (case statements r of None \<Rightarrow> [] | Some es \<Rightarrow> es)"

definition mapNodes :: "Response \<Rightarrow> Node list" where
  "mapNodes r = (case map_view r of
      None \<Rightarrow> []
    | Some mv \<Rightarrow> (case nodes mv of None \<Rightarrow> [] | Some ns \<Rightarrow> ns))"

text \<open>The identifiers and nodes occurring in the input data.\<close>

definition argumentIds :: "ArgdownMapData \<Rightarrow> string list" where
  "argumentIds data = (case response data of
      None \<Rightarrow> []
    | Some r \<Rightarrow> map fst (argumentEntries r))"

definition statementIds :: "ArgdownMapData \<Rightarrow> string list" where
  "statementIds data = (case response data of
      None \<Rightarrow> []
    | Some r \<Rightarrow> map fst (statementEntries r))"

definition graphNodes :: "ArgdownMapData \<Rightarrow> Node list" where
  "graphNodes data = (case response data of
      None \<Rightarrow> []
    | Some r \<Rightarrow> mapNodes r)"

text \<open>The requested speakers: \<^verbatim>\<open>filters.speakers\<close>, empty when absent.\<close>

definition requestedSpeakers :: "FilterOptions \<Rightarrow> string list" where
  "requestedSpeakers filters = (case speakers filters of None \<Rightarrow> [] | Some spk \<Rightarrow> spk)"

text \<open>The condition under which the statement loop pushes to \<^verbatim>\<open>matchingNodeIds\<close>.\<close>

definition stmtMatching :: "string list \<Rightarrow> TaggedItem \<Rightarrow> bool" where
  "stmtMatching fts stmt \<longleftrightarrow>
     \<not> some (tagsOrEmpty (tags stmt)) (\<lambda>t. startsWith t ''speaker-'' \<or> \<not> includesJS t (CHR ''-''))
     \<or> matchesFilter fts (tagsOrEmpty (tags stmt))"

section \<open>A sample debate\<close>

text \<open>
  Two speakers \<open>x\<close> and \<open>y\<close>: three arguments (one tagged informally with the bare
  name \<open>x\<close>), an untagged central claim, and a graph with a tagged node, a group node
  and a node that repeats an argument identifier.
\<close>

definition exampleResponse :: Response where
  "exampleResponse =
     \<lparr>response_tags = Some (TagsArray [TagString ''speaker-x'', TagRecord None (Some ''speaker-y'')]),
      arguments = Some [(''b'', \<lparr>tags = Some [''speaker-x'']\<rparr>),
                        (''c'', \<lparr>tags = Some [''speaker-y'']\<rparr>),
                        (''d'', \<lparr>tags = Some [''x'']\<rparr>)],
      statements = Some [(''a'', \<lparr>tags = None\<rparr>)],
      map_view = Some \<lparr>nodes = Some [\<lparr>node_id = ''n1'', node_tags = Some [''x'']\<rparr>,
                                      \<lparr>node_id = ''g1'', node_tags = Some [''topic-a'']\<rparr>,
                                      \<lparr>node_id = ''b'', node_tags = None\<rparr>]\<rparr>\<rparr>"

definition exampleData :: ArgdownMapData where
  "exampleData = \<lparr>response = Some exampleResponse\<rparr>"

definition exampleFilters :: FilterOptions where
  "exampleFilters = \<lparr>speakers = Some [''x''], argumentTypes = None, filter_tags = None,
      showClaims = None, showArguments = None\<rparr>"

definition exampleFilters' :: FilterOptions where
  "exampleFilters' = \<lparr>speakers = Some [''x''], argumentTypes = Some [Attack],
      filter_tags = Some [''topic-a''], showClaims = Some False, showArguments = Some True\<rparr>"

section \<open>Unfolding the model\<close>

lemmas model_defs =
  buildSpeakerMutations_def classify_def checkNodes_def checkStatements_def checkArguments_def
  checkNode_def checkStatement_def checkArgument_def emitMutations_def emphasizeMutation_def
  dimMutation_def matchesFilter_def allFilterTags_def speakerTags_def tagsOrEmpty_def
  some_def includesJS_def startsWith_def idsOf_def argumentIds_def statementIds_def
  graphNodes_def requestedSpeakers_def argumentEntries_def statementEntries_def mapNodes_def

lemmas example_defs = exampleResponse_def exampleData_def exampleFilters_def exampleFilters'_def

lemma example_classify:
  "classify exampleResponse [''x''] = ([''b'', ''d'', ''a'', ''n1''], [''c''])"
  by (simp add: example_defs model_defs)

section \<open>The three classification loops\<close>

lemma matchesFilter_iff: "matchesFilter fts ts \<longleftrightarrow> set fts \<inter> set ts \<noteq> {}"
  by (auto simp: matchesFilter_def some_def includesJS_def list_ex_iff)

lemma fold_checkArgument:
  "fold (checkArgument fts) es (m, n) =
     (m @ map fst (filter (\<lambda>e. matchesFilter fts (tagsOrEmpty (tags (snd e)))) es),
      n @ map fst (filter (\<lambda>e. \<not> matchesFilter fts (tagsOrEmpty (tags (snd e)))) es))"
  by (induction es arbitrary: m n) (auto simp: checkArgument_def)

lemma fold_checkStatement:
  "fold (checkStatement fts) es (m, n) =
     (m @ map fst (filter (\<lambda>e. stmtMatching fts (snd e)) es),
      n @ map fst (filter (\<lambda>e. \<not> stmtMatching fts (snd e)) es))"
  by (induction es arbitrary: m n) (auto simp: checkStatement_def stmtMatching_def Let_def)

lemma fold_checkNode_snd: "snd (fold (checkNode fts) ns st) = snd st"
  by (induction ns arbitrary: st) (auto simp: checkNode_def Let_def split: prod.splits)

lemma fold_checkNode_mono: "set (fst st) \<subseteq> set (fst (fold (checkNode fts) ns st))"
proof (induction ns arbitrary: st)
  case Nil
  show ?case by simp
next
  case (Cons nd ns)
  have "set (fst st) \<subseteq> set (fst (checkNode fts nd st))"
    by (auto simp: checkNode_def Let_def split: prod.splits)
  also have "\<dots> \<subseteq> set (fst (fold (checkNode fts) ns (checkNode fts nd st)))"
    by (rule Cons.IH)
  finally show ?case by simp
qed

lemma fold_checkNode_upper:
  "i \<in> set (fst (fold (checkNode fts) ns st)) \<Longrightarrow>
   i \<in> set (fst st) \<or>
   (\<exists>nd \<in> set ns. node_id nd = i \<and> matchesFilter fts (tagsOrEmpty (node_tags nd)))"
proof (induction ns arbitrary: st)
  case Nil
  then show ?case by simp
next
  case (Cons nd ns)
  from Cons.prems have "i \<in> set (fst (fold (checkNode fts) ns (checkNode fts nd st)))"
    by simp
  from Cons.IH [OF this] show ?case
    by (auto simp: checkNode_def Let_def split: prod.splits if_splits)
qed

lemma fold_checkNode_new:
  "i \<in> set (fst (fold (checkNode fts) ns st)) \<Longrightarrow> i \<notin> set (fst st) \<Longrightarrow> i \<notin> set (snd st)"
proof (induction ns arbitrary: st)
  case Nil
  then show ?case by simp
next
  case (Cons nd ns)
  have snd_eq: "snd (checkNode fts nd st) = snd st"
    by (auto simp: checkNode_def Let_def split: prod.splits)
  from Cons.prems(1) have in_rest: "i \<in> set (fst (fold (checkNode fts) ns (checkNode fts nd st)))"
    by simp
  show ?case
  proof (cases "i \<in> set (fst (checkNode fts nd st))")
    case True
    with Cons.prems(2) show ?thesis
      by (auto simp: checkNode_def Let_def includesJS_def split: prod.splits if_splits)
  next
    case False
    from Cons.IH [OF in_rest False] show ?thesis
      by (simp add: snd_eq)
  qed
qed

lemma checkArguments_eq:
  "checkArguments fts r (m, n) =
     (m @ map fst (filter (\<lambda>e. matchesFilter fts (tagsOrEmpty (tags (snd e)))) (argumentEntries r)),
      n @ map fst (filter (\<lambda>e. \<not> matchesFilter fts (tagsOrEmpty (tags (snd e)))) (argumentEntries r)))"
  by (simp add: checkArguments_def argumentEntries_def fold_checkArgument split: option.splits)

lemma checkStatements_eq:
  "checkStatements fts r (m, n) =
     (m @ map fst (filter (\<lambda>e. stmtMatching fts (snd e)) (statementEntries r)),
      n @ map fst (filter (\<lambda>e. \<not> stmtMatching fts (snd e)) (statementEntries r)))"
  by (simp add: checkStatements_def statementEntries_def fold_checkStatement split: option.splits)

lemma checkNodes_snd: "snd (checkNodes fts r st) = snd st"
  by (simp add: checkNodes_def fold_checkNode_snd split: option.splits)

lemma checkNodes_mono: "set (fst st) \<subseteq> set (fst (checkNodes fts r st))"
  by (simp add: checkNodes_def fold_checkNode_mono split: option.splits)

lemma checkNodes_upper:
  assumes "i \<in> set (fst (checkNodes fts r st))"
  shows "i \<in> set (fst st) \<or>
    (\<exists>nd \<in> set (mapNodes r).
        node_id nd = i \<and> matchesFilter fts (tagsOrEmpty (node_tags nd)))"
  using assms fold_checkNode_upper [of i fts _ st]
  by (auto simp: checkNodes_def mapNodes_def split: option.splits)

lemma checkNodes_new:
  "i \<in> set (fst (checkNodes fts r st)) \<Longrightarrow> i \<notin> set (fst st) \<Longrightarrow> i \<notin> set (snd st)"
  by (auto simp: checkNodes_def split: option.splits dest: fold_checkNode_new)

lemma filter_keys_disjoint:
  "distinct (map fst es) \<Longrightarrow>
   set (map fst (filter P es)) \<inter> set (map fst (filter (\<lambda>e. \<not> P e) es)) = {}"
  by (induction es) force+

text \<open>The non-matching list: the non-matching arguments, then the non-matching statements.\<close>

lemma classify_snd:
  "snd (classify r spk) =
     map fst (filter (\<lambda>e. \<not> matchesFilter (allFilterTags spk) (tagsOrEmpty (tags (snd e))))
        (argumentEntries r)) @
     map fst (filter (\<lambda>e. \<not> stmtMatching (allFilterTags spk) (snd e))
        (statementEntries r))"
  by (simp add: classify_def Let_def checkNodes_snd checkArguments_eq checkStatements_eq)

lemma classify_fst_lower:
  "set (map fst (filter (\<lambda>e. matchesFilter (allFilterTags spk) (tagsOrEmpty (tags (snd e))))
        (argumentEntries r))) \<union>
   set (map fst (filter (\<lambda>e. stmtMatching (allFilterTags spk) (snd e))
        (statementEntries r)))
   \<subseteq> set (fst (classify r spk))"
  using checkNodes_mono [of "checkStatements (allFilterTags spk) r (checkArguments (allFilterTags spk) r ([], []))" "allFilterTags spk" r]
  by (simp add: classify_def Let_def checkArguments_eq checkStatements_eq)

lemma classify_fst_upper:
  assumes "i \<in> set (fst (classify r spk))"
  shows "i \<in> set (map fst (filter (\<lambda>e. matchesFilter (allFilterTags spk) (tagsOrEmpty (tags (snd e))))
        (argumentEntries r)))
     \<or> i \<in> set (map fst (filter (\<lambda>e. stmtMatching (allFilterTags spk) (snd e))
        (statementEntries r)))
     \<or> (\<exists>nd \<in> set (mapNodes r).
        node_id nd = i \<and> matchesFilter (allFilterTags spk) (tagsOrEmpty (node_tags nd)))"
  using checkNodes_upper [of i "allFilterTags spk" r "checkStatements (allFilterTags spk) r (checkArguments (allFilterTags spk) r ([], []))"] assms
  by (auto simp: classify_def Let_def checkArguments_eq checkStatements_eq)

section \<open>The emitted mutations\<close>

lemma idsOf_emitMutations:
  "idsOf e (emitMutations spk (m, n)) = (if e = Emphasize then set m else set n)"
  by (cases e) (auto simp: idsOf_def emitMutations_def emphasizeMutation_def dimMutation_def)

lemma idsOf_Nil: "idsOf e [] = {}"
  by (simp add: idsOf_def)

lemma idsOf_build:
  "idsOf e (buildSpeakerMutations data filters) =
    (case response data of None \<Rightarrow> {} | Some r \<Rightarrow>
      (case speakers filters of None \<Rightarrow> {} | Some spk \<Rightarrow>
        if spk = [] then {}
        else if e = Emphasize then set (fst (classify r spk)) else set (snd (classify r spk))))"
  by (cases "classify (the (response data)) (the (speakers filters))")
     (auto simp: buildSpeakerMutations_def idsOf_Nil idsOf_emitMutations split: option.splits)

lemma argumentIds_Some: "response data = Some r \<Longrightarrow> argumentIds data = map fst (argumentEntries r)"
  by (simp add: argumentIds_def)

lemma statementIds_Some: "response data = Some r \<Longrightarrow> statementIds data = map fst (statementEntries r)"
  by (simp add: statementIds_def)

lemma graphNodes_Some: "response data = Some r \<Longrightarrow> graphNodes data = mapNodes r"
  by (simp add: graphNodes_def)

section \<open>The speaker set stays duplicate-free\<close>

lemma distinct_add: "distinct s \<Longrightarrow> distinct (add x s)"
  by (simp add: add_def)

lemma distinct_fold:
  assumes step: "\<And>x s. distinct s \<Longrightarrow> distinct (f x s)"
  shows "distinct s \<Longrightarrow> distinct (fold f xs s)"
  by (induction xs arbitrary: s) (simp_all add: step)

lemma distinct_scanTopTag: "distinct s \<Longrightarrow> distinct (scanTopTag t s)"
  by (simp add: scanTopTag_def distinct_add)

lemma distinct_scanTagKey: "distinct s \<Longrightarrow> distinct (scanTagKey k s)"
  by (simp add: scanTagKey_def distinct_add)

lemma distinct_scanItemTag: "distinct s \<Longrightarrow> distinct (scanItemTag t s)"
  by (simp add: scanItemTag_def distinct_add)

lemma distinct_scanItem: "distinct s \<Longrightarrow> distinct (scanItem item s)"
  by (simp add: scanItem_def distinct_fold distinct_scanItemTag split: option.splits)

lemma distinct_scanItems: "distinct s \<Longrightarrow> distinct (scanItems obj s)"
  by (simp add: scanItems_def distinct_fold distinct_scanItem split: option.splits)

lemma distinct_scanTopTags: "distinct s \<Longrightarrow> distinct (scanTopTags t s)"
  by (simp add: scanTopTags_def distinct_fold distinct_scanTopTag distinct_scanTagKey
      split: option.splits TagsField.splits)

section \<open>Properties of buildSpeakerMutations\<close>

subsection \<open>The short-circuit\<close>

text \<open>
  C1. If the data has no response structure, or the filter's speaker list is absent or
  empty, \<open>buildSpeakerMutations\<close> returns the empty sequence.
\<close>

theorem C1_no_filter_no_mutations:
  "response data = None \<or> speakers filters = None \<or> speakers filters = Some []
   \<Longrightarrow> buildSpeakerMutations data filters = []"
  by (auto simp: buildSpeakerMutations_def split: option.splits)

text \<open>An instance: a response with an untagged claim, filtered by an empty speaker list.\<close>

theorem C1_no_filter_no_mutations_witness:
  "speakers \<lparr>speakers = Some [], argumentTypes = None, filter_tags = None,
       showClaims = None, showArguments = None\<rparr> = Some [] \<and>
   buildSpeakerMutations
     \<lparr>response = Some \<lparr>response_tags = None, arguments = None,
        statements = Some [(''a'', \<lparr>tags = None\<rparr>)], map_view = None\<rparr>\<rparr>
     \<lparr>speakers = Some [], argumentTypes = None, filter_tags = None,
        showClaims = None, showArguments = None\<rparr> = []"
  using C1_no_filter_no_mutations
    [of "\<lparr>response = Some \<lparr>response_tags = None, arguments = None,
        statements = Some [(''a'', \<lparr>tags = None\<rparr>)], map_view = None\<rparr>\<rparr>"
        "\<lparr>speakers = Some [], argumentTypes = None, filter_tags = None,
        showClaims = None, showArguments = None\<rparr>"]
  by simp

subsection \<open>Emphasized and dimmed identifiers\<close>

text \<open>
  C2. The identifiers of the emphasize mutation and those of the dim mutation are meant to
  be disjoint. The argument loop and the statement loop push every key they visit without
  looking at the lists, unlike the node loop, which skips identifiers already present. For
  an argument and a statement stored under the same key \<open>a\<close>, the argument matching speaker
  \<open>x\<close> and the statement tagged for speaker \<open>y\<close>, the identifier \<open>a\<close> is emitted in both
  mutations.
\<close>

theorem C2_shared_identifier_in_both:
  "buildSpeakerMutations
     \<lparr>response = Some \<lparr>response_tags = None,
        arguments = Some [(''a'', \<lparr>tags = Some [''speaker-x'']\<rparr>)],
        statements = Some [(''a'', \<lparr>tags = Some [''speaker-y'']\<rparr>)],
        map_view = None\<rparr>\<rparr>
     \<lparr>speakers = Some [''x''], argumentTypes = None, filter_tags = None,
        showClaims = None, showArguments = None\<rparr>
   = [\<lparr>nodeIds = [''a''], effect = Emphasize, reason = ''Speaker: x'', priority = 10\<rparr>,
      \<lparr>nodeIds = [''a''], effect = Dim, reason = ''Not matching filter'', priority = 0\<rparr>]"
  by (simp add: model_defs)

text \<open>
  When no key is shared between the two objects (keys within one object are always
  unique), the two identifier sets are disjoint.
\<close>

lemma disjoint_when_identifiers_unique:
  assumes da: "distinct (argumentIds data)" and ds: "distinct (statementIds data)"
    and dj: "set (argumentIds data) \<inter> set (statementIds data) = {}"
  shows "idsOf Emphasize (buildSpeakerMutations data filters) \<inter>
         idsOf Dim (buildSpeakerMutations data filters) = {}"
proof (cases "response data")
  case None
  then show ?thesis by (simp add: idsOf_build)
next
  case (Some r)
  show ?thesis
  proof (cases "speakers filters")
    case None
    then show ?thesis by (simp add: idsOf_build Some)
  next
    case spk: (Some spk)
    define fts where "fts = allFilterTags spk"
    define st where "st = checkStatements fts r (checkArguments fts r ([], []))"
    have cl: "classify r spk = checkNodes fts r st"
      by (simp add: classify_def st_def fts_def Let_def)
    have da': "distinct (map fst (argumentEntries r))"
      using da by (simp add: argumentIds_Some [OF Some])
    have ds': "distinct (map fst (statementEntries r))"
      using ds by (simp add: statementIds_Some [OF Some])
    have dj': "fst ` set (argumentEntries r) \<inter> fst ` set (statementEntries r) = {}"
      using dj by (simp add: argumentIds_Some [OF Some] statementIds_Some [OF Some])
    have st_disj: "set (fst st) \<inter> set (snd st) = {}"
      using filter_keys_disjoint [OF da', of "\<lambda>e. matchesFilter fts (tagsOrEmpty (tags (snd e)))"]
        filter_keys_disjoint [OF ds', of "\<lambda>e. stmtMatching fts (snd e)"] dj'
      by (auto simp: st_def checkArguments_eq checkStatements_eq)
    have "set (fst (checkNodes fts r st)) \<inter> set (snd (checkNodes fts r st)) = {}"
      using st_disj checkNodes_new [of _ fts r st] by (auto simp: checkNodes_snd)
    then show ?thesis
      by (simp add: idsOf_build Some spk cl)
  qed
qed

text \<open>
  C3. A statement with no tags is meant to be emphasized and never dimmed. It is always
  pushed to the matching list, but an argument stored under the same key and not matching
  the filter puts the same identifier into the dim mutation as well: here the untagged
  statement \<open>a\<close> shares its key with an argument of speaker \<open>y\<close>, under the filter \<open>x\<close>.
\<close>

theorem C3_untagged_statement_dimmed:
  "buildSpeakerMutations
     \<lparr>response = Some \<lparr>response_tags = None,
        arguments = Some [(''a'', \<lparr>tags = Some [''speaker-y'']\<rparr>)],
        statements = Some [(''a'', \<lparr>tags = Some []\<rparr>)],
        map_view = None\<rparr>\<rparr>
     \<lparr>speakers = Some [''x''], argumentTypes = None, filter_tags = None,
        showClaims = None, showArguments = None\<rparr>
   = [\<lparr>nodeIds = [''a''], effect = Emphasize, reason = ''Speaker: x'', priority = 10\<rparr>,
      \<lparr>nodeIds = [''a''], effect = Dim, reason = ''Not matching filter'', priority = 0\<rparr>]"
  by (simp add: model_defs)

text \<open>The first half holds on every input: an untagged statement is emphasized.\<close>

lemma untagged_statement_emphasized:
  assumes "response data = Some r" and "speakers filters = Some spk" and "spk \<noteq> []"
    and "statements r = Some es" and "(i, stmt) \<in> set es" and "tagsOrEmpty (tags stmt) = []"
  shows "i \<in> idsOf Emphasize (buildSpeakerMutations data filters)"
proof -
  have "stmtMatching (allFilterTags spk) stmt"
    using assms(6) by (simp add: stmtMatching_def some_def)
  with assms(4,5) have "i \<in> set (map fst (filter (\<lambda>e. stmtMatching (allFilterTags spk) (snd e))
        (statementEntries r)))"
    by (force simp: statementEntries_def)
  with classify_fst_lower [of spk r] have "i \<in> set (fst (classify r spk))"
    by blast
  then show ?thesis
    using assms(1-3) by (simp add: idsOf_build)
qed

subsection \<open>The filter-match set\<close>

text \<open>
  C4. For each requested speaker \<open>s\<close> the filter-match set \<open>allFilterTags\<close> contains both
  \<open>speaker-s\<close> and the bare \<open>s\<close>; consequently an argument carrying a tag equal to a
  requested speaker name (in particular a hyphen-free one) is in the emphasize mutation.
\<close>

theorem C4_filter_match_set:
  assumes "speakers filters = Some spk" and "s \<in> set spk"
  shows "''speaker-'' @ s \<in> set (allFilterTags spk) \<and> s \<in> set (allFilterTags spk) \<and>
    (\<forall>r es i arg ts.
        response data = Some r \<and> arguments r = Some es \<and> (i, arg) \<in> set es \<and>
        tags arg = Some ts \<and> s \<in> set ts
        \<longrightarrow> i \<in> idsOf Emphasize (buildSpeakerMutations data filters))"
proof (intro conjI allI impI)
  show "''speaker-'' @ s \<in> set (allFilterTags spk)"
    using assms(2) by (auto simp: allFilterTags_def speakerTags_def)
  show in_fts: "s \<in> set (allFilterTags spk)"
    using assms(2) by (simp add: allFilterTags_def)
  fix r es i arg ts
  assume h: "response data = Some r \<and> arguments r = Some es \<and> (i, arg) \<in> set es \<and>
        tags arg = Some ts \<and> s \<in> set ts"
  have ne: "spk \<noteq> []" using assms(2) by auto
  have "matchesFilter (allFilterTags spk) (tagsOrEmpty (tags arg))"
    using h in_fts by (auto simp: matchesFilter_iff tagsOrEmpty_def)
  with h have "i \<in> set (map fst (filter (\<lambda>e. matchesFilter (allFilterTags spk) (tagsOrEmpty (tags (snd e))))
        (argumentEntries r)))"
    by (force simp: argumentEntries_def)
  with classify_fst_lower [of spk r] have "i \<in> set (fst (classify r spk))"
    by blast
  then show "i \<in> idsOf Emphasize (buildSpeakerMutations data filters)"
    using h assms(1) ne by (simp add: idsOf_build)
qed

text \<open>In the sample debate, argument \<open>d\<close> carries the bare tag \<open>x\<close>.\<close>

theorem C4_filter_match_set_witness:
  "''speaker-x'' \<in> set (allFilterTags [''x'']) \<and> ''x'' \<in> set (allFilterTags [''x'']) \<and>
   ''d'' \<in> idsOf Emphasize (buildSpeakerMutations exampleData exampleFilters)"
proof -
  have sp: "speakers exampleFilters = Some [''x'']" and x: "''x'' \<in> set [''x'']"
    by (simp_all add: exampleFilters_def)
  have h: "response exampleData = Some exampleResponse \<and>
      arguments exampleResponse = Some [(''b'', \<lparr>tags = Some [''speaker-x'']\<rparr>),
                        (''c'', \<lparr>tags = Some [''speaker-y'']\<rparr>),
                        (''d'', \<lparr>tags = Some [''x'']\<rparr>)] \<and>
      (''d'', \<lparr>tags = Some [''x'']\<rparr>) \<in> set [(''b'', \<lparr>tags = Some [''speaker-x'']\<rparr>),
                        (''c'', \<lparr>tags = Some [''speaker-y'']\<rparr>),
                        (''d'', \<lparr>tags = Some [''x'']\<rparr>)] \<and>
      tags \<lparr>tags = Some [''x'']\<rparr> = Some [''x''] \<and> ''x'' \<in> set [''x'']"
    by (simp add: example_defs)
  note c = C4_filter_match_set [OF sp x, of exampleData]
  from c h have "''d'' \<in> idsOf Emphasize (buildSpeakerMutations exampleData exampleFilters)"
    by blast
  with c show ?thesis
    by simp
qed

subsection \<open>Graph nodes outside the argument and statement maps\<close>

text \<open>
  C5, as stated: a node of the graph's node list whose identifier is no argument or
  statement key and whose own tags miss the filter-match set appears in neither mutation.
  This fails when another node of the list has the same identifier and matching tags: the
  mutations carry identifiers, so the identifier is emphasized through the other node.
\<close>

theorem C5_unclassified_node_counterexample:
  "\<lparr>node_id = ''n'', node_tags = None\<rparr> \<in> set (graphNodes
      \<lparr>response = Some \<lparr>response_tags = None, arguments = None, statements = None,
         map_view = Some \<lparr>nodes = Some [\<lparr>node_id = ''n'', node_tags = Some [''speaker-x'']\<rparr>,
                                         \<lparr>node_id = ''n'', node_tags = None\<rparr>]\<rparr>\<rparr>\<rparr>) \<and>
   ''n'' \<notin> set (argumentIds
      \<lparr>response = Some \<lparr>response_tags = None, arguments = None, statements = None,
         map_view = Some \<lparr>nodes = Some [\<lparr>node_id = ''n'', node_tags = Some [''speaker-x'']\<rparr>,
                                         \<lparr>node_id = ''n'', node_tags = None\<rparr>]\<rparr>\<rparr>\<rparr>) \<and>
   ''n'' \<notin> set (statementIds
      \<lparr>response = Some \<lparr>response_tags = None, arguments = None, statements = None,
         map_view = Some \<lparr>nodes = Some [\<lparr>node_id = ''n'', node_tags = Some [''speaker-x'']\<rparr>,
                                         \<lparr>node_id = ''n'', node_tags = None\<rparr>]\<rparr>\<rparr>\<rparr>) \<and>
   set (allFilterTags [''x'']) \<inter> set (tagsOrEmpty (node_tags \<lparr>node_id = ''n'', node_tags = None\<rparr>)) = {} \<and>
   ''n'' \<in> idsOf Emphasize (buildSpeakerMutations
      \<lparr>response = Some \<lparr>response_tags = None, arguments = None, statements = None,
         map_view = Some \<lparr>nodes = Some [\<lparr>node_id = ''n'', node_tags = Some [''speaker-x'']\<rparr>,
                                         \<lparr>node_id = ''n'', node_tags = None\<rparr>]\<rparr>\<rparr>\<rparr>
      \<lparr>speakers = Some [''x''], argumentTypes = None, filter_tags = None,
        showClaims = None, showArguments = None\<rparr>)"
  by (simp add: model_defs)

text \<open>
  C5, amended: if a node's identifier is no argument or statement key, and no node of the
  list with that identifier (the node itself included) has tags meeting the filter-match
  set, then the identifier appears in neither the emphasize nor the dim mutation. With
  pairwise distinct node identifiers this is the claim as stated.
\<close>

theorem C5_unclassified_node_untouched:
  assumes nd: "nd \<in> set (graphNodes data)"
    and fresh: "node_id nd \<notin> set (argumentIds data) \<union> set (statementIds data)"
    and nomatch: "\<forall>nd' \<in> set (graphNodes data). node_id nd' = node_id nd \<longrightarrow>
        set (allFilterTags (requestedSpeakers filters)) \<inter> set (tagsOrEmpty (node_tags nd')) = {}"
  shows "node_id nd \<notin> idsOf Emphasize (buildSpeakerMutations data filters) \<and>
         node_id nd \<notin> idsOf Dim (buildSpeakerMutations data filters)"
proof (cases "response data")
  case None
  then show ?thesis by (simp add: idsOf_build)
next
  case (Some r)
  show ?thesis
  proof (cases "speakers filters")
    case None
    then show ?thesis by (simp add: idsOf_build Some)
  next
    case spk: (Some spk)
    have req: "requestedSpeakers filters = spk"
      by (simp add: requestedSpeakers_def spk)
    have notE: "node_id nd \<notin> set (fst (classify r spk))"
    proof
      assume "node_id nd \<in> set (fst (classify r spk))"
      from classify_fst_upper [OF this] fresh nomatch show False
        by (auto simp: argumentIds_Some [OF Some] statementIds_Some [OF Some]
            graphNodes_Some [OF Some] req matchesFilter_iff)
    qed
    have notD: "node_id nd \<notin> set (snd (classify r spk))"
      using fresh
      by (auto simp: classify_snd argumentIds_Some [OF Some] statementIds_Some [OF Some])
    show ?thesis
      using notE notD by (simp add: idsOf_build Some spk)
  qed
qed

text \<open>In the sample debate, the group node \<open>g1\<close> is tagged \<open>topic-a\<close> only.\<close>

theorem C5_unclassified_node_untouched_witness:
  "''g1'' \<notin> idsOf Emphasize (buildSpeakerMutations exampleData exampleFilters) \<and>
   ''g1'' \<notin> idsOf Dim (buildSpeakerMutations exampleData exampleFilters)"
proof -
  have 1: "\<lparr>node_id = ''g1'', node_tags = Some [''topic-a'']\<rparr> \<in> set (graphNodes exampleData)"
    by (simp add: example_defs graphNodes_def mapNodes_def)
  have 2: "node_id \<lparr>node_id = ''g1'', node_tags = Some [''topic-a'']\<rparr>
      \<notin> set (argumentIds exampleData) \<union> set (statementIds exampleData)"
    by (simp add: example_defs argumentIds_def statementIds_def argumentEntries_def
        statementEntries_def)
  have 3: "\<forall>nd' \<in> set (graphNodes exampleData).
      node_id nd' = node_id \<lparr>node_id = ''g1'', node_tags = Some [''topic-a'']\<rparr> \<longrightarrow>
      set (allFilterTags (requestedSpeakers exampleFilters)) \<inter> set (tagsOrEmpty (node_tags nd')) = {}"
    by (simp add: example_defs graphNodes_def mapNodes_def requestedSpeakers_def
        allFilterTags_def speakerTags_def tagsOrEmpty_def)
  from C5_unclassified_node_untouched [OF 1 2 3] show ?thesis
    by simp
qed

subsection \<open>Shape of the result\<close>

text \<open>
  C6. At most two mutations are emitted. Past the short-circuit, with \<open>matching\<close> and
  \<open>nonMatching\<close> the two lists after the loops: an emphasize mutation is present iff
  \<open>matching\<close> is non-empty, a dim mutation is present iff \<open>nonMatching\<close> is non-empty, and the
  result is the emphasize mutation (reason \<open>Speaker: \<close> followed by the requested speakers
  joined with \<open>, \<close>, priority 10) if present, followed by the dim mutation (reason
  \<open>Not matching filter\<close>, priority 0) if present.
\<close>

theorem C6_emitted_mutations:
  "length (buildSpeakerMutations data filters) \<le> 2 \<and>
   (\<forall>r spk matching nonMatching.
      response data = Some r \<and> speakers filters = Some spk \<and> spk \<noteq> [] \<and>
      classify r spk = (matching, nonMatching) \<longrightarrow>
        ((\<exists>m \<in> set (buildSpeakerMutations data filters). effect m = Emphasize)
            \<longleftrightarrow> matching \<noteq> []) \<and>
        ((\<exists>m \<in> set (buildSpeakerMutations data filters). effect m = Dim)
            \<longleftrightarrow> nonMatching \<noteq> []) \<and>
        buildSpeakerMutations data filters =
          (if matching \<noteq> [] then
             [\<lparr>nodeIds = matching, effect = Emphasize,
               reason = ''Speaker: '' @ join spk '', '', priority = 10\<rparr>]
           else []) @
          (if nonMatching \<noteq> [] then
             [\<lparr>nodeIds = nonMatching, effect = Dim,
               reason = ''Not matching filter'', priority = 0\<rparr>]
           else []))"
proof (intro conjI allI impI)
  show "length (buildSpeakerMutations data filters) \<le> 2"
    by (simp add: buildSpeakerMutations_def emitMutations_def split: option.splits prod.splits)
next
  fix r spk matching nonMatching
  assume h: "response data = Some r \<and> speakers filters = Some spk \<and> spk \<noteq> [] \<and>
      classify r spk = (matching, nonMatching)"
  then have eq: "buildSpeakerMutations data filters = emitMutations spk (matching, nonMatching)"
    by (simp add: buildSpeakerMutations_def)
  show "(\<exists>m \<in> set (buildSpeakerMutations data filters). effect m = Emphasize) \<longleftrightarrow> matching \<noteq> []"
    by (auto simp: eq emitMutations_def emphasizeMutation_def dimMutation_def)
  show "(\<exists>m \<in> set (buildSpeakerMutations data filters). effect m = Dim) \<longleftrightarrow> nonMatching \<noteq> []"
    by (auto simp: eq emitMutations_def emphasizeMutation_def dimMutation_def)
  show "buildSpeakerMutations data filters =
          (if matching \<noteq> [] then
             [\<lparr>nodeIds = matching, effect = Emphasize,
               reason = ''Speaker: '' @ join spk '', '', priority = 10\<rparr>]
           else []) @
          (if nonMatching \<noteq> [] then
             [\<lparr>nodeIds = nonMatching, effect = Dim,
               reason = ''Not matching filter'', priority = 0\<rparr>]
           else [])"
    by (simp add: eq emitMutations_def emphasizeMutation_def dimMutation_def)
qed

text \<open>The sample debate yields both mutations, the emphasize mutation first.\<close>

theorem C6_emitted_mutations_witness:
  "classify exampleResponse [''x''] = ([''b'', ''d'', ''a'', ''n1''], [''c'']) \<and>
   buildSpeakerMutations exampleData exampleFilters =
     [\<lparr>nodeIds = [''b'', ''d'', ''a'', ''n1''], effect = Emphasize, reason = ''Speaker: x'',
        priority = 10\<rparr>,
      \<lparr>nodeIds = [''c''], effect = Dim, reason = ''Not matching filter'', priority = 0\<rparr>]"
proof -
  have h: "response exampleData = Some exampleResponse \<and> speakers exampleFilters = Some [''x''] \<and>
      [''x''] \<noteq> [] \<and> classify exampleResponse [''x''] = ([''b'', ''d'', ''a'', ''n1''], [''c''])"
    by (simp add: example_classify) (simp add: example_defs)
  from C6_emitted_mutations [of exampleData exampleFilters] h
  have "buildSpeakerMutations exampleData exampleFilters =
          (if [''b'', ''d'', ''a'', ''n1''] \<noteq> [] then
             [\<lparr>nodeIds = [''b'', ''d'', ''a'', ''n1''], effect = Emphasize,
               reason = ''Speaker: '' @ join [''x''] '', '', priority = 10\<rparr>]
           else []) @
          (if [''c''] \<noteq> [] then
             [\<lparr>nodeIds = [''c''], effect = Dim,
               reason = ''Not matching filter'', priority = 0\<rparr>]
           else [])"
    by blast
  then show ?thesis
    by (simp add: example_classify)
qed

subsection \<open>extractSpeakers\<close>

text \<open>
  C7. The sequence returned by \<open>extractSpeakers\<close> is sorted ascending in the lexicographic
  order of strings and has no duplicate entries.
\<close>

theorem C7_extractSpeakers_sorted_distinct:
  "sorted (extractSpeakers data) \<and> distinct (extractSpeakers data)"
  by (simp add: extractSpeakers_def distinct_scanItems distinct_scanTopTags split: option.splits)

subsection \<open>The worked example\<close>

text \<open>
  C8, as stated: for statements \<open>{a: no tags}\<close>, arguments \<open>{b: [speaker-x], c: [speaker-y]}\<close>
  and the filter \<open>{speakers: [x]}\<close>, the emphasize mutation has \<open>nodeIds [a, b]\<close>. No emitted
  mutation carries that sequence: arguments are classified before statements.
\<close>

theorem C8_example_counterexample:
  "[''a'', ''b''] \<notin> set (map nodeIds (buildSpeakerMutations
     \<lparr>response = Some \<lparr>response_tags = None,
        arguments = Some [(''b'', \<lparr>tags = Some [''speaker-x'']\<rparr>),
                          (''c'', \<lparr>tags = Some [''speaker-y'']\<rparr>)],
        statements = Some [(''a'', \<lparr>tags = None\<rparr>)],
        map_view = None\<rparr>\<rparr>
     \<lparr>speakers = Some [''x''], argumentTypes = None, filter_tags = None,
        showClaims = None, showArguments = None\<rparr>))"
  by (simp add: model_defs)

text \<open>
  C8, amended: on that input the result is an emphasize mutation with \<open>nodeIds [b, a]\<close>
  followed by a dim mutation with \<open>nodeIds [c]\<close>.
\<close>

theorem C8_example:
  "buildSpeakerMutations
     \<lparr>response = Some \<lparr>response_tags = None,
        arguments = Some [(''b'', \<lparr>tags = Some [''speaker-x'']\<rparr>),
                          (''c'', \<lparr>tags = Some [''speaker-y'']\<rparr>)],
        statements = Some [(''a'', \<lparr>tags = None\<rparr>)],
        map_view = None\<rparr>\<rparr>
     \<lparr>speakers = Some [''x''], argumentTypes = None, filter_tags = None,
        showClaims = None, showArguments = None\<rparr>
   = [\<lparr>nodeIds = [''b'', ''a''], effect = Emphasize, reason = ''Speaker: x'', priority = 10\<rparr>,
      \<lparr>nodeIds = [''c''], effect = Dim, reason = ''Not matching filter'', priority = 0\<rparr>]"
  by (simp add: model_defs)

subsection \<open>Independence from the other filter fields\<close>

text \<open>
  C9. Two filters that agree on \<open>speakers\<close> give the same result: \<open>argumentTypes\<close>, \<open>tags\<close>,
  \<open>showClaims\<close> and \<open>showArguments\<close> have no effect.
\<close>

theorem C9_other_fields_ignored:
  "speakers f1 = speakers f2 \<Longrightarrow> buildSpeakerMutations data f1 = buildSpeakerMutations data f2"
  by (simp add: buildSpeakerMutations_def split: option.splits)

text \<open>Two filters on the sample debate that differ in every other field.\<close>

theorem C9_other_fields_ignored_witness:
  "argumentTypes exampleFilters \<noteq> argumentTypes exampleFilters' \<and>
   showClaims exampleFilters \<noteq> showClaims exampleFilters' \<and>
   buildSpeakerMutations exampleData exampleFilters =
   buildSpeakerMutations exampleData exampleFilters'"
proof -
  have "speakers exampleFilters = speakers exampleFilters'"
    by (simp add: example_defs)
  from C9_other_fields_ignored [OF this, of exampleData] show ?thesis
    by (simp add: example_defs)
qed

subsection \<open>No invented identifiers\<close>

text \<open>
  C10. Every identifier in an emitted mutation is a key of the arguments object, a key of
  the statements object, or the id of a node in the graph's node list.
\<close>

theorem C10_no_invented_identifiers:
  "\<forall>m \<in> set (buildSpeakerMutations data filters).
     set (nodeIds m) \<subseteq> set (argumentIds data) \<union> set (statementIds data)
        \<union> set (map node_id (graphNodes data))"
proof (intro ballI subsetI)
  fix m i
  assume m: "m \<in> set (buildSpeakerMutations data filters)" and i: "i \<in> set (nodeIds m)"
  from m obtain r spk where r: "response data = Some r" and spk: "speakers filters = Some spk"
    and ne: "spk \<noteq> []"
    by (cases "response data"; cases "speakers filters")
       (auto simp: buildSpeakerMutations_def split: if_splits)
  from m i r spk ne have "i \<in> set (fst (classify r spk)) \<or> i \<in> set (snd (classify r spk))"
    by (cases "classify r spk")
       (auto simp: buildSpeakerMutations_def emitMutations_def emphasizeMutation_def
          dimMutation_def split: if_splits)
  then show "i \<in> set (argumentIds data) \<union> set (statementIds data)
        \<union> set (map node_id (graphNodes data))"
  proof
    assume "i \<in> set (fst (classify r spk))"
    from classify_fst_upper [OF this] show ?thesis
      by (auto simp: argumentIds_Some [OF r] statementIds_Some [OF r] graphNodes_Some [OF r])
  next
    assume "i \<in> set (snd (classify r spk))"
    then show ?thesis
      by (auto simp: classify_snd argumentIds_Some [OF r] statementIds_Some [OF r])
  qed
qed

text \<open>The emphasize mutation of the sample debate.\<close>

theorem C10_no_invented_identifiers_witness:
  "emphasizeMutation [''x''] [''b'', ''d'', ''a'', ''n1'']
      \<in> set (buildSpeakerMutations exampleData exampleFilters) \<and>
   set [''b'', ''d'', ''a'', ''n1''] \<subseteq> set (argumentIds exampleData) \<union> set (statementIds exampleData)
        \<union> set (map node_id (graphNodes exampleData))"
proof -
  have m: "emphasizeMutation [''x''] [''b'', ''d'', ''a'', ''n1'']
      \<in> set (buildSpeakerMutations exampleData exampleFilters)"
    by (simp add: buildSpeakerMutations_def exampleData_def exampleFilters_def emitMutations_def
        example_classify)
  from C10_no_invented_identifiers [of exampleData exampleFilters] m
  have "set (nodeIds (emphasizeMutation [''x''] [''b'', ''d'', ''a'', ''n1'']))
      \<subseteq> set (argumentIds exampleData) \<union> set (statementIds exampleData)
        \<union> set (map node_id (graphNodes exampleData))"
    by blast
  then show ?thesis
    using m by (simp add: emphasizeMutation_def)
qed

end
